theory Spec2Isabelle
  imports Complex_Main "HOL-Library.Word" "HOL-Library.Multiset"
begin

section \<open>The recursive model index of \<open>RecursiveModelIndex.h\<close>\<close>

text \<open>
  The class \<open>RecursiveModelIndex<KeyType, ValueType, secondStageSize>\<close> keeps a sorted
  vector \<open>m_data\<close>, an unsorted vector \<open>m_overflowArray\<close> of recent inserts, a count of
  the overflow and a threshold, one first-stage network and an array of
  \<open>secondStageSize\<close> second-stage networks.

  The member functions are embedded as functions on a record of the data members.
  What the header calls but does not define is a parameter of the embedding, collected
  in the record \<open>externals\<close>: \<open>std::sort\<close>, the network library \<open>nn_cpp\<close> and the
  random batches of \<open>utils/DataUtils.h\<close>. A network is a value of the type variable
  \<open>'net\<close>; a call into the network library may fail (\<open>None\<close>).

  C++ \<open>int\<close> is \<open>32 word\<close>, read with \<open>sint\<close>; \<open>float\<close> values are the reals they
  denote (a NaN or an infinity is \<open>None\<close>). Undefined behaviour and a failure of
  the library end a call with a \<open>fault\<close>; the calls after it are not run.
\<close>

subsection \<open>Data\<close>

type_synonym int32 = "32 word"

record NetworkParameters =
  batchSize :: int32
  maxNumEpochs :: int32
  learningRate :: real
  numNeurons :: int32

datatype fault =
  ExternalFailure
  | FloatToIntOutOfRange
  | DivisionByZero
  | IndexOutOfBounds
  | SignedOverflow

record ('k, 'v, 'net) externals =
  std_sort :: "('k \<times> 'v) list \<Rightarrow> ('k \<times> 'v) list"
  new_first_stage_net :: "NetworkParameters \<Rightarrow> 'net option"
  new_second_stage_net :: "int32 \<Rightarrow> 'net option"
  first_stage_epochs :: "NetworkParameters \<Rightarrow> ('k \<times> 'v) list \<Rightarrow> 'net \<Rightarrow> 'net option"
  first_stage_position :: "'net \<Rightarrow> nat \<Rightarrow> 'k \<Rightarrow> real option"
  second_stage_epochs ::
    "NetworkParameters \<Rightarrow> int32 \<Rightarrow> ('k \<times> nat) list \<Rightarrow> 'net \<Rightarrow> 'net option"

text \<open>
  \<^item> \<open>std_sort\<close> is \<open>std::sort\<close> with the comparator \<open>p1.first < p2.first\<close>.
  \<^item> \<open>new_first_stage_net\<close> builds the network of lines 103 to 106 (Dense, Relu, Dense),
    \<open>new_second_stage_net b\<close> the network of one \<open>Dense(b, 1, 1)\<close> layer.
  \<^item> \<open>first_stage_epochs\<close> is the epoch loop of \<open>trainFirstStage\<close>,
    \<open>second_stage_epochs\<close> the epoch loop of \<open>trainSecondStage\<close> for one stage with its
    batch size and its per-stage dataset.
  \<^item> \<open>first_stage_position net n key\<close> is the float
    \<open>forward(key) * n\<close> of lines 208 to 210.
\<close>

record ('k, 'v, 'net) rmi =
  m_data :: "('k \<times> 'v) list"
  m_firstStageParams :: NetworkParameters
  m_secondStageParams :: NetworkParameters
  m_firstStageNetwork :: 'net
  m_secondStageNetworks :: "'net list"
  m_currentOverflowSize :: int32
  m_maxOverflowSize :: int32
  m_overflowArray :: "('k \<times> 'v) list"

text \<open>
  The template parameter \<open>secondStageSize\<close> is the length of the array
  \<open>m_secondStageNetworks\<close>; the constructor takes it as the argument \<open>bankSize\<close>.
  Sizes and positions of vectors are natural numbers.
\<close>

subsection \<open>The constructor\<close>

text \<open>
  The initialiser list names \<open>m_firstStageParams\<close>, \<open>m_secondStageParams\<close> and
  \<open>m_maxOverflowSize\<close>. The two vectors are default-constructed, that is empty.
  \<open>m_currentOverflowSize\<close> is an \<open>int\<close> that the constructor never writes. For an
  object in static storage it is zero; for any other object it is indeterminate, and
  the member holds whatever its storage held before. That value is the last argument
  here. The loop of lines 109 to 112 calls the library once for every second-stage
  network, so not at all for an empty array.
\<close>

fun new_second_stage_nets ::
  "('k, 'v, 'net) externals \<Rightarrow> int32 \<Rightarrow> nat \<Rightarrow> 'net list option" where
  "new_second_stage_nets ext b 0 = Some []"
| "new_second_stage_nets ext b (Suc n) =
     (case new_second_stage_net ext b of
        None \<Rightarrow> None
      | Some net \<Rightarrow>
          (case new_second_stage_nets ext b n of
             None \<Rightarrow> None
           | Some nets \<Rightarrow> Some (net # nets)))"

definition RecursiveModelIndex ::
  "('k, 'v, 'net) externals \<Rightarrow> NetworkParameters \<Rightarrow> NetworkParameters \<Rightarrow> nat \<Rightarrow> int32
   \<Rightarrow> int32 \<Rightarrow> fault + ('k, 'v, 'net) rmi" where
  "RecursiveModelIndex ext firstStageParams secondStageParams bankSize maxOverflowSize
     indeterminate =
     (case new_first_stage_net ext firstStageParams of
        None \<Rightarrow> Inl ExternalFailure
      | Some net1 \<Rightarrow>
          (case new_second_stage_nets ext (batchSize secondStageParams) bankSize of
             None \<Rightarrow> Inl ExternalFailure
           | Some nets \<Rightarrow>
               Inr \<lparr> m_data = [],
                     m_firstStageParams = firstStageParams,
                     m_secondStageParams = secondStageParams,
                     m_firstStageNetwork = net1,
                     m_secondStageNetworks = nets,
                     m_currentOverflowSize = indeterminate,
                     m_maxOverflowSize = maxOverflowSize,
                     m_overflowArray = [] \<rparr>))"

subsection \<open>Training\<close>

definition trainFirstStage ::
  "('k, 'v, 'net) externals \<Rightarrow> ('k, 'v, 'net) rmi \<Rightarrow> fault + ('k, 'v, 'net) rmi" where
  "trainFirstStage ext s =
     (case first_stage_epochs ext (m_firstStageParams s) (m_data s) (m_firstStageNetwork s) of
        None \<Rightarrow> Inl ExternalFailure
      | Some net \<Rightarrow> Inr (s\<lparr>m_firstStageNetwork := net\<rparr>))"

text \<open>
  \<open>static_cast<int>\<close> of a float truncates towards zero; the behaviour is undefined
  when the truncated value is not an \<open>int\<close>.
\<close>

definition float_to_int :: "real \<Rightarrow> fault + int" where
  "float_to_int x =
     (let t = (if 0 \<le> x then \<lfloor>x\<rfloor> else \<lceil>x\<rceil>)
      in if - (2 ^ 31) \<le> t \<and> t < 2 ^ 31 then Inr t else Inl FloatToIntOutOfRange)"

text \<open>Division of \<open>int\<close> in C++ truncates towards zero.\<close>

definition cpp_div :: "int \<Rightarrow> int \<Rightarrow> int" where
  "cpp_div a b = sgn a * sgn b * (\<bar>a\<bar> div \<bar>b\<bar>)"

text \<open>
  Lines 213 to 216: the stage of a record from the first stage's position \<open>p\<close> and the
  size \<open>N\<close> of the array.
\<close>

definition stage_of :: "real \<Rightarrow> int \<Rightarrow> fault + int" where
  "stage_of p N =
     (case float_to_int p of
        Inl e \<Rightarrow> Inl e
      | Inr q \<Rightarrow>
          if N = 0 then Inl DivisionByZero
          else (let stage = cpp_div q N;
                    stage = max 0 stage;
                    stage = min (N - 1) stage
                in Inr stage))"

text \<open>
  Lines 207 to 218: the loop over \<open>m_data\<close> that fills \<open>perStageDataset\<close>. The
  arguments are the position function of the first stage, the records still to visit,
  the index \<open>ii\<close> and the array built so far.
\<close>

fun perStageDataset_loop ::
  "('k \<Rightarrow> real option) \<Rightarrow> ('k \<times> 'v) list \<Rightarrow> nat \<Rightarrow> ('k \<times> nat) list list
   \<Rightarrow> fault + ('k \<times> nat) list list" where
  "perStageDataset_loop pos [] ii acc = Inr acc"
| "perStageDataset_loop pos (r # rs) ii acc =
     (case pos (fst r) of
        None \<Rightarrow> Inl FloatToIntOutOfRange
      | Some p \<Rightarrow>
          (case stage_of p (int (length acc)) of
             Inl e \<Rightarrow> Inl e
           | Inr stage \<Rightarrow>
               if 0 \<le> stage \<and> stage < int (length acc)
               then perStageDataset_loop pos rs (Suc ii)
                      (acc[nat stage := acc ! nat stage @ [(fst r, ii)]])
               else Inl IndexOutOfBounds))"

text \<open>
  Lines 223 to 271: the body of the loop over the stages, for the dataset \<open>ds\<close> of one
  stage and its network. An empty dataset leaves the network as it is.
\<close>

definition train_stage ::
  "('k, 'v, 'net) externals \<Rightarrow> NetworkParameters \<Rightarrow> ('k \<times> nat) list \<Rightarrow> 'net
   \<Rightarrow> fault + 'net" where
  "train_stage ext ssp ds net =
     (if ds = [] then Inr net
      else
        (let datasetSize = (word_of_nat (length ds) :: int32);
             b = (if sint datasetSize < sint (batchSize ssp) then datasetSize
                  else batchSize ssp);
             fresh = (if sint b < sint (batchSize ssp) then new_second_stage_net ext b
                      else Some net)
         in case fresh of
              None \<Rightarrow> Inl ExternalFailure
            | Some net0 \<Rightarrow>
                (case second_stage_epochs ext ssp b ds net0 of
                   None \<Rightarrow> Inl ExternalFailure
                 | Some net' \<Rightarrow> Inr net')))"

fun second_stage_loop ::
  "('k, 'v, 'net) externals \<Rightarrow> NetworkParameters \<Rightarrow> ('k \<times> nat) list list \<Rightarrow> 'net list
   \<Rightarrow> fault + 'net list" where
  "second_stage_loop ext ssp (ds # dss) (net # nets) =
     (case train_stage ext ssp ds net of
        Inl e \<Rightarrow> Inl e
      | Inr net' \<Rightarrow>
          (case second_stage_loop ext ssp dss nets of
             Inl e \<Rightarrow> Inl e
           | Inr nets' \<Rightarrow> Inr (net' # nets')))"
| "second_stage_loop ext ssp dss nets = Inr nets"

definition trainSecondStage ::
  "('k, 'v, 'net) externals \<Rightarrow> ('k, 'v, 'net) rmi \<Rightarrow> fault + ('k, 'v, 'net) rmi" where
  "trainSecondStage ext s =
     (case perStageDataset_loop
             (first_stage_position ext (m_firstStageNetwork s) (length (m_data s)))
             (m_data s) 0 (replicate (length (m_secondStageNetworks s)) []) of
        Inl e \<Rightarrow> Inl e
      | Inr perStageDataset \<Rightarrow>
          (case second_stage_loop ext (m_secondStageParams s) perStageDataset
                  (m_secondStageNetworks s) of
             Inl e \<Rightarrow> Inl e
           | Inr nets \<Rightarrow> Inr (s\<lparr>m_secondStageNetworks := nets\<rparr>)))"

definition train ::
  "('k, 'v, 'net) externals \<Rightarrow> ('k, 'v, 'net) rmi \<Rightarrow> fault + ('k, 'v, 'net) rmi" where
  "train ext s =
     (case trainFirstStage ext
             (s\<lparr>m_data := std_sort ext (m_data s @ m_overflowArray s)\<rparr>) of
        Inl e \<Rightarrow> Inl e
      | Inr s1 \<Rightarrow>
          (case trainSecondStage ext s1 of
             Inl e \<Rightarrow> Inl e
           | Inr s2 \<Rightarrow> Inr (s2\<lparr>m_overflowArray := [], m_currentOverflowSize := 0\<rparr>)))"

subsection \<open>Insert and find\<close>

text \<open>
  Lines 117 to 123. Incrementing an \<open>int\<close> that holds \<open>INT_MAX\<close> is undefined.
\<close>

definition insert_rmi ::
  "('k, 'v, 'net) externals \<Rightarrow> 'k \<Rightarrow> 'v \<Rightarrow> ('k, 'v, 'net) rmi
   \<Rightarrow> fault + ('k, 'v, 'net) rmi" where
  "insert_rmi ext key val s =
     (if sint (m_currentOverflowSize s) = 2 ^ 31 - 1 then Inl SignedOverflow
      else
        (let s1 = s\<lparr>m_overflowArray := m_overflowArray s @ [(key, val)],
                    m_currentOverflowSize := m_currentOverflowSize s + 1\<rparr>
         in if sint (m_maxOverflowSize s1) < sint (m_currentOverflowSize s1)
            then train ext s1
            else Inr s1))"

text \<open>
  \<open>find\<close> returns the first pair of the overflow array with the key, and the
  value-initialised pair \<open>{}\<close> when there is none. The value-initialised key and
  value are \<open>0\<close> of their types.
\<close>

definition find_rmi :: "'k \<Rightarrow> ('k::zero, 'v::zero, 'net) rmi \<Rightarrow> 'k \<times> 'v" where
  "find_rmi key s =
     (case List.find (\<lambda>pair. fst pair = key) (m_overflowArray s) of
        Some result \<Rightarrow> result
      | None \<Rightarrow> (0, 0))"

subsection \<open>Sequences of calls\<close>

datatype ('k, 'v) call = Insert 'k 'v | Find 'k | Train

text \<open>\<open>find\<close> changes no data member; its result is \<open>find_rmi key\<close> of the state.\<close>

fun call_rmi ::
  "('k, 'v, 'net) externals \<Rightarrow> ('k, 'v) call \<Rightarrow> ('k, 'v, 'net) rmi
   \<Rightarrow> fault + ('k, 'v, 'net) rmi" where
  "call_rmi ext (Insert key val) s = insert_rmi ext key val s"
| "call_rmi ext (Find key) s = Inr s"
| "call_rmi ext Train s = train ext s"

fun calls ::
  "('k, 'v, 'net) externals \<Rightarrow> ('k, 'v) call list \<Rightarrow> ('k, 'v, 'net) rmi
   \<Rightarrow> fault + ('k, 'v, 'net) rmi" where
  "calls ext [] s = Inr s"
| "calls ext (c # cs) s =
     (case call_rmi ext c s of
        Inl e \<Rightarrow> Inl e
      | Inr s' \<Rightarrow> calls ext cs s')"

fun inserted :: "('k, 'v) call list \<Rightarrow> ('k \<times> 'v) list" where
  "inserted [] = []"
| "inserted (Insert key val # cs) = (key, val) # inserted cs"
| "inserted (c # cs) = inserted cs"

text \<open>Construction followed by a sequence of calls.\<close>

definition run ::
  "('k, 'v, 'net) externals \<Rightarrow> NetworkParameters \<Rightarrow> NetworkParameters \<Rightarrow> nat \<Rightarrow> int32
   \<Rightarrow> int32 \<Rightarrow> ('k, 'v) call list \<Rightarrow> fault + ('k, 'v, 'net) rmi" where
  "run ext fsp ssp bankSize maxOverflowSize indeterminate cs =
     (case RecursiveModelIndex ext fsp ssp bankSize maxOverflowSize indeterminate of
        Inl e \<Rightarrow> Inl e
      | Inr s \<Rightarrow> calls ext cs s)"

subsection \<open>What the C++ standard promises of \<open>std::sort\<close>\<close>

text \<open>
  The result is a permutation of the argument, ordered by the comparator, here
  non-decreasing in the key. The order of records with equal keys is unspecified.
\<close>

definition std_sort_contract :: "(('k::linorder \<times> 'v) list \<Rightarrow> ('k \<times> 'v) list) \<Rightarrow> bool" where
  "std_sort_contract srt \<longleftrightarrow> (\<forall>xs. mset (srt xs) = mset xs \<and> sorted (map fst (srt xs)))"

subsection \<open>The words of the specification\<close>

text \<open>\<open>clamp(x, lo, hi)\<close> of the routing policy.\<close>

definition spec_clamp :: "int \<Rightarrow> int \<Rightarrow> int \<Rightarrow> int" where
  "spec_clamp x lo hi = (if x < lo then lo else if hi < x then hi else x)"

text \<open>
  The merge with a stable sort: the dataset followed by the drained overflow, sorted by
  key, records of equal key in the order they had.
\<close>

definition spec_stable_merge :: "('k::linorder, 'v, 'net) rmi \<Rightarrow> ('k \<times> 'v) list" where
  "spec_stable_merge s = sort_key fst (m_data s @ m_overflowArray s)"

subsection \<open>\<open>std::sort\<close> as libstdc++ implements it\<close>

text \<open>
  The header is compiled against a standard library; the functions below follow
  \<open>std::sort\<close> of GNU libstdc++ (\<open>bits/stl_algo.h\<close>, \<open>bits/stl_heap.h\<close>): an introsort
  with median-of-three partitioning down to ranges of 16 elements, heapsort when the
  depth limit \<open>2 * lg n\<close> is used up, and a final insertion sort. Iterators are
  positions in the vector; \<open>last'\<close> is the iterator one past the range.

  The scans of \<open>__unguarded_partition\<close> and \<open>__unguarded_linear_insert\<close> check no bound
  in the library: for a comparator that is a strict weak order they stop inside the
  range. Here they stop at the ends of the vector at the latest.

  \<open>train_comparator\<close> is the comparator of lines 146 to 148.
\<close>

definition train_comparator :: "('k::linorder \<times> 'v) \<Rightarrow> ('k \<times> 'v) \<Rightarrow> bool" where
  "train_comparator p1 p2 \<longleftrightarrow> fst p1 < fst p2"

definition iter_swap :: "'a list \<Rightarrow> nat \<Rightarrow> nat \<Rightarrow> 'a list" where
  "iter_swap xs i j = xs[i := xs ! j, j := xs ! i]"

text \<open>\<open>std::__lg\<close>: the position of the highest bit.\<close>

fun lg :: "nat \<Rightarrow> nat" where
  "lg n = (if n < 2 then 0 else Suc (lg (n div 2)))"

declare lg.simps [simp del]

text \<open>\<open>__move_median_to_first\<close>, \<open>__unguarded_partition\<close> and \<open>__unguarded_partition_pivot\<close>.\<close>

definition move_median_to_first ::
  "('a \<Rightarrow> 'a \<Rightarrow> bool) \<Rightarrow> 'a list \<Rightarrow> nat \<Rightarrow> nat \<Rightarrow> nat \<Rightarrow> nat \<Rightarrow> 'a list" where
  "move_median_to_first cmp xs result a b c =
     (if cmp (xs ! a) (xs ! b) then
        (if cmp (xs ! b) (xs ! c) then iter_swap xs result b
         else if cmp (xs ! a) (xs ! c) then iter_swap xs result c
         else iter_swap xs result a)
      else if cmp (xs ! a) (xs ! c) then iter_swap xs result a
      else if cmp (xs ! b) (xs ! c) then iter_swap xs result c
      else iter_swap xs result b)"

function scan_up :: "('a \<Rightarrow> 'a \<Rightarrow> bool) \<Rightarrow> 'a list \<Rightarrow> nat \<Rightarrow> nat \<Rightarrow> nat" where
  "scan_up cmp xs pivot i =
     (if i < length xs \<and> cmp (xs ! i) (xs ! pivot) then scan_up cmp xs pivot (Suc i) else i)"
  by pat_completeness auto
termination
  by (relation "measure (\<lambda>(cmp, xs, pivot, i). length xs - i)") auto

declare scan_up.simps [simp del]

fun scan_down :: "('a \<Rightarrow> 'a \<Rightarrow> bool) \<Rightarrow> 'a list \<Rightarrow> nat \<Rightarrow> nat \<Rightarrow> nat" where
  "scan_down cmp xs pivot j =
     (if 0 < j \<and> cmp (xs ! pivot) (xs ! j) then scan_down cmp xs pivot (j - 1) else j)"

declare scan_down.simps [simp del]

function unguarded_partition ::
  "('a \<Rightarrow> 'a \<Rightarrow> bool) \<Rightarrow> 'a list \<Rightarrow> nat \<Rightarrow> nat \<Rightarrow> nat \<Rightarrow> 'a list \<times> nat" where
  "unguarded_partition cmp xs first last' pivot =
     (let f = scan_up cmp xs pivot first;
          l = scan_down cmp xs pivot (last' - 1)
      in if \<not> f < l then (xs, f)
         else unguarded_partition cmp (iter_swap xs f l) (Suc f) l pivot)"
  by pat_completeness auto
termination
proof (relation "measure (\<lambda>(cmp, xs, first, last', pivot). last')", goal_cases)
  case 1
  show ?case by simp
next
  case (2 cmp xs first last' pivot f l)
  have le: "scan_down cmp xs pivot j \<le> j" for j
  proof (induction cmp xs pivot j rule: scan_down.induct)
    case (1 cmp xs pivot j)
    then show ?case
      by (subst scan_down.simps) (auto simp: le_diff_conv)
  qed
  have "l \<le> last' - 1" using 2(2) by (simp add: le)
  moreover have "0 < l" using 2(3) by simp
  ultimately show ?case by simp
qed

declare unguarded_partition.simps [simp del]

definition unguarded_partition_pivot ::
  "('a \<Rightarrow> 'a \<Rightarrow> bool) \<Rightarrow> 'a list \<Rightarrow> nat \<Rightarrow> nat \<Rightarrow> 'a list \<times> nat" where
  "unguarded_partition_pivot cmp xs first last' =
     (let mid = first + (last' - first) div 2;
          xs1 = move_median_to_first cmp xs first (first + 1) mid (last' - 1)
      in unguarded_partition cmp xs1 (first + 1) last' first)"

text \<open>
  The heap functions of \<open>bits/stl_heap.h\<close>, on the range that starts at \<open>first\<close>:
  \<open>__push_heap\<close>, \<open>__adjust_heap\<close> (its loop, then the case of a last parent with one
  child), \<open>__pop_heap\<close>, \<open>__make_heap\<close>, the loop of \<open>__heap_select\<close>, \<open>__sort_heap\<close>
  and \<open>__partial_sort\<close>.
\<close>

function push_heap ::
  "('a \<Rightarrow> 'a \<Rightarrow> bool) \<Rightarrow> 'a list \<Rightarrow> nat \<Rightarrow> nat \<Rightarrow> nat \<Rightarrow> 'a \<Rightarrow> 'a list" where
  "push_heap cmp xs first holeIndex topIndex val =
     (let parent = (holeIndex - 1) div 2
      in if topIndex < holeIndex \<and> cmp (xs ! (first + parent)) val
         then push_heap cmp (xs[first + holeIndex := xs ! (first + parent)]) first parent topIndex val
         else xs[first + holeIndex := val])"
  by pat_completeness auto
termination
  by (relation "measure (\<lambda>(cmp, xs, first, holeIndex, topIndex, val). holeIndex)") auto

declare push_heap.simps [simp del]

function adjust_heap_loop ::
  "('a \<Rightarrow> 'a \<Rightarrow> bool) \<Rightarrow> 'a list \<Rightarrow> nat \<Rightarrow> nat \<Rightarrow> nat \<Rightarrow> 'a list \<times> nat" where
  "adjust_heap_loop cmp xs first len secondChild =
     (if secondChild < (len - 1) div 2
      then (let child = 2 * (secondChild + 1);
                child = (if cmp (xs ! (first + child)) (xs ! (first + (child - 1)))
                         then child - 1 else child)
            in adjust_heap_loop cmp (xs[first + secondChild := xs ! (first + child)])
                 first len child)
      else (xs, secondChild))"
  by pat_completeness auto
termination
  by (relation "measure (\<lambda>(cmp, xs, first, len, secondChild). len - secondChild)") auto

declare adjust_heap_loop.simps [simp del]

definition adjust_heap ::
  "('a \<Rightarrow> 'a \<Rightarrow> bool) \<Rightarrow> 'a list \<Rightarrow> nat \<Rightarrow> nat \<Rightarrow> nat \<Rightarrow> 'a \<Rightarrow> 'a list" where
  "adjust_heap cmp xs first holeIndex len val =
     (let (xs1, secondChild) = adjust_heap_loop cmp xs first len holeIndex;
          (xs2, hole) =
            (if even len \<and> 2 \<le> len \<and> secondChild = (len - 2) div 2
             then (xs1[first + secondChild := xs1 ! (first + (2 * (secondChild + 1) - 1))],
                   2 * (secondChild + 1) - 1)
             else (xs1, secondChild))
      in push_heap cmp xs2 first hole holeIndex val)"

definition pop_heap ::
  "('a \<Rightarrow> 'a \<Rightarrow> bool) \<Rightarrow> 'a list \<Rightarrow> nat \<Rightarrow> nat \<Rightarrow> nat \<Rightarrow> 'a list" where
  "pop_heap cmp xs first last' result =
     (let val = xs ! result
      in adjust_heap cmp (xs[result := xs ! first]) first 0 (last' - first) val)"

fun make_heap_loop ::
  "('a \<Rightarrow> 'a \<Rightarrow> bool) \<Rightarrow> 'a list \<Rightarrow> nat \<Rightarrow> nat \<Rightarrow> nat \<Rightarrow> 'a list" where
  "make_heap_loop cmp xs first len 0 = adjust_heap cmp xs first 0 len (xs ! first)"
| "make_heap_loop cmp xs first len (Suc parent) =
     make_heap_loop cmp (adjust_heap cmp xs first (Suc parent) len (xs ! (first + Suc parent)))
       first len parent"

definition make_heap ::
  "('a \<Rightarrow> 'a \<Rightarrow> bool) \<Rightarrow> 'a list \<Rightarrow> nat \<Rightarrow> nat \<Rightarrow> 'a list" where
  "make_heap cmp xs first last' =
     (if last' - first < 2 then xs
      else make_heap_loop cmp xs first (last' - first) ((last' - first - 2) div 2))"

function heap_select_loop ::
  "('a \<Rightarrow> 'a \<Rightarrow> bool) \<Rightarrow> 'a list \<Rightarrow> nat \<Rightarrow> nat \<Rightarrow> nat \<Rightarrow> nat \<Rightarrow> 'a list" where
  "heap_select_loop cmp xs first middle last' i =
     (if i < last'
      then heap_select_loop cmp
             (if cmp (xs ! i) (xs ! first) then pop_heap cmp xs first middle i else xs)
             first middle last' (Suc i)
      else xs)"
  by pat_completeness auto
termination
  by (relation "measure (\<lambda>(cmp, xs, first, middle, last', i). last' - i)") auto

declare heap_select_loop.simps [simp del]

function sort_heap ::
  "('a \<Rightarrow> 'a \<Rightarrow> bool) \<Rightarrow> 'a list \<Rightarrow> nat \<Rightarrow> nat \<Rightarrow> 'a list" where
  "sort_heap cmp xs first last' =
     (if 1 < last' - first
      then sort_heap cmp (pop_heap cmp xs first (last' - 1) (last' - 1)) first (last' - 1)
      else xs)"
  by pat_completeness auto
termination
  by (relation "measure (\<lambda>(cmp, xs, first, last'). last' - first)") auto

declare sort_heap.simps [simp del]

definition partial_sort ::
  "('a \<Rightarrow> 'a \<Rightarrow> bool) \<Rightarrow> 'a list \<Rightarrow> nat \<Rightarrow> nat \<Rightarrow> nat \<Rightarrow> 'a list" where
  "partial_sort cmp xs first middle last' =
     sort_heap cmp
       (heap_select_loop cmp (make_heap cmp xs first middle) first middle last' middle)
       first middle"

text \<open>
  \<open>__introsort_loop\<close>: ranges of more than 16 elements are partitioned, the upper part
  by the recursive call and the lower part by the next round of the loop, each with
  the depth limit one less; at depth limit 0 the range is heap-sorted.
\<close>

fun introsort_loop ::
  "('a \<Rightarrow> 'a \<Rightarrow> bool) \<Rightarrow> nat \<Rightarrow> 'a list \<Rightarrow> nat \<Rightarrow> nat \<Rightarrow> 'a list" where
  "introsort_loop cmp 0 xs first last' =
     (if 16 < last' - first then partial_sort cmp xs first last' last' else xs)"
| "introsort_loop cmp (Suc depth_limit) xs first last' =
     (if 16 < last' - first
      then (let (xs1, cut) = unguarded_partition_pivot cmp xs first last';
                xs2 = introsort_loop cmp depth_limit xs1 cut last'
            in introsort_loop cmp depth_limit xs2 first cut)
      else xs)"

text \<open>
  \<open>__unguarded_linear_insert\<close>, \<open>__insertion_sort\<close> (an element smaller than the first
  is moved to the front with \<open>std::move_backward\<close>), \<open>__unguarded_insertion_sort\<close>,
  \<open>__final_insertion_sort\<close> and \<open>std::__sort\<close>.
\<close>

function unguarded_linear_insert_loop ::
  "('a \<Rightarrow> 'a \<Rightarrow> bool) \<Rightarrow> 'a list \<Rightarrow> 'a \<Rightarrow> nat \<Rightarrow> 'a list" where
  "unguarded_linear_insert_loop cmp xs val last' =
     (if 0 < last' \<and> cmp val (xs ! (last' - 1))
      then unguarded_linear_insert_loop cmp (xs[last' := xs ! (last' - 1)]) val (last' - 1)
      else xs[last' := val])"
  by pat_completeness auto
termination
  by (relation "measure (\<lambda>(cmp, xs, val, last'). last')") auto

declare unguarded_linear_insert_loop.simps [simp del]

definition unguarded_linear_insert ::
  "('a \<Rightarrow> 'a \<Rightarrow> bool) \<Rightarrow> 'a list \<Rightarrow> nat \<Rightarrow> 'a list" where
  "unguarded_linear_insert cmp xs last' = unguarded_linear_insert_loop cmp xs (xs ! last') last'"

definition move_to_front :: "'a list \<Rightarrow> nat \<Rightarrow> nat \<Rightarrow> 'a list" where
  "move_to_front xs first i =
     take first xs @ xs ! i # take (i - first) (drop first xs) @ drop (Suc i) xs"

function insertion_sort_loop ::
  "('a \<Rightarrow> 'a \<Rightarrow> bool) \<Rightarrow> 'a list \<Rightarrow> nat \<Rightarrow> nat \<Rightarrow> nat \<Rightarrow> 'a list" where
  "insertion_sort_loop cmp xs first last' i =
     (if i < last'
      then insertion_sort_loop cmp
             (if cmp (xs ! i) (xs ! first) then move_to_front xs first i
              else unguarded_linear_insert cmp xs i)
             first last' (Suc i)
      else xs)"
  by pat_completeness auto
termination
  by (relation "measure (\<lambda>(cmp, xs, first, last', i). last' - i)") auto

declare insertion_sort_loop.simps [simp del]

definition insertion_sort ::
  "('a \<Rightarrow> 'a \<Rightarrow> bool) \<Rightarrow> 'a list \<Rightarrow> nat \<Rightarrow> nat \<Rightarrow> 'a list" where
  "insertion_sort cmp xs first last' =
     (if first = last' then xs else insertion_sort_loop cmp xs first last' (first + 1))"

function unguarded_insertion_sort ::
  "('a \<Rightarrow> 'a \<Rightarrow> bool) \<Rightarrow> 'a list \<Rightarrow> nat \<Rightarrow> nat \<Rightarrow> 'a list" where
  "unguarded_insertion_sort cmp xs i last' =
     (if i < last'
      then unguarded_insertion_sort cmp (unguarded_linear_insert cmp xs i) (Suc i) last'
      else xs)"
  by pat_completeness auto
termination
  by (relation "measure (\<lambda>(cmp, xs, i, last'). last' - i)") auto

declare unguarded_insertion_sort.simps [simp del]

definition final_insertion_sort ::
  "('a \<Rightarrow> 'a \<Rightarrow> bool) \<Rightarrow> 'a list \<Rightarrow> nat \<Rightarrow> nat \<Rightarrow> 'a list" where
  "final_insertion_sort cmp xs first last' =
     (if 16 < last' - first
      then unguarded_insertion_sort cmp (insertion_sort cmp xs first (first + 16))
             (first + 16) last'
      else insertion_sort cmp xs first last')"

definition libstdcxx_sort :: "('a \<Rightarrow> 'a \<Rightarrow> bool) \<Rightarrow> 'a list \<Rightarrow> 'a list" where
  "libstdcxx_sort cmp xs =
     (if xs = [] then xs
      else final_insertion_sort cmp
             (introsort_loop cmp (lg (length xs) * 2) xs 0 (length xs)) 0 (length xs))"

subsection \<open>Two instances of the externals\<close>

text \<open>
  Keys and values are \<open>int\<close>, a network carries no data, the library refuses a batch
  size that is not positive, and the first stage predicts the key itself as the
  position. The first instance sorts with insertion sort, which is what libstdc++ does
  on a vector of at most 16 records; the second sorts with \<open>libstdcxx_sort\<close>.
\<close>

definition params :: "int32 \<Rightarrow> NetworkParameters" where
  "params b = \<lparr> batchSize = b, maxNumEpochs = 10, learningRate = 1 / 100, numNeurons = 8 \<rparr>"

definition plain_externals :: "(int, int, unit) externals" where
  "plain_externals =
     \<lparr> std_sort = sort_key fst,
       new_first_stage_net = (\<lambda>p. if 0 < sint (batchSize p) then Some () else None),
       new_second_stage_net = (\<lambda>b. if 0 < sint b then Some () else None),
       first_stage_epochs = (\<lambda>p d net. Some net),
       first_stage_position = (\<lambda>net n key. Some (real_of_int key)),
       second_stage_epochs = (\<lambda>p b ds net. Some net) \<rparr>"

definition libstdcxx_externals :: "(int, int, unit) externals" where
  "libstdcxx_externals = plain_externals \<lparr> std_sort := libstdcxx_sort train_comparator \<rparr>"

text \<open>
  Seventeen records with the same key: ten are inserted and merged by \<open>train()\<close>, seven
  more are inserted after it.
\<close>

definition first_ten :: "(int, int) call list" where
  "first_ten =
     [Insert 1 0, Insert 1 1, Insert 1 2, Insert 1 3, Insert 1 4,
      Insert 1 5, Insert 1 6, Insert 1 7, Insert 1 8, Insert 1 9]"

definition next_seven :: "(int, int) call list" where
  "next_seven =
     [Insert 1 10, Insert 1 11, Insert 1 12, Insert 1 13, Insert 1 14,
      Insert 1 15, Insert 1 16]"

text \<open>A state with two merged records and two records in the overflow array.\<close>

definition example_state :: "(int, int, unit) rmi" where
  "example_state =
     \<lparr> m_data = [(1, 10), (4, 40)],
       m_firstStageParams = params 32,
       m_secondStageParams = params 32,
       m_firstStageNetwork = (),
       m_secondStageNetworks = [(), ()],
       m_currentOverflowSize = 2,
       m_maxOverflowSize = 5,
       m_overflowArray = [(3, 30), (1, 11)] \<rparr>"

subsection \<open>The overflow count agrees with the overflow array\<close>

definition counter_ok :: "('k, 'v, 'net) rmi \<Rightarrow> bool" where
  "counter_ok s \<longleftrightarrow> sint (m_currentOverflowSize s) = int (length (m_overflowArray s))"

subsection \<open>Conditions under which calls complete\<close>

text \<open>
  The library never fails and every position the first stage predicts truncates to an
  \<open>int\<close>.
\<close>

definition externals_total :: "('k, 'v, 'net) externals \<Rightarrow> bool" where
  "externals_total ext \<longleftrightarrow>
     (\<forall>p d net. first_stage_epochs ext p d net \<noteq> None)
     \<and> (\<forall>net n key. \<exists>p. first_stage_position ext net n key = Some p
                          \<and> - (2 ^ 31) - 1 < p \<and> p < 2 ^ 31)
     \<and> (\<forall>b. new_second_stage_net ext b \<noteq> None)
     \<and> (\<forall>p b ds net. second_stage_epochs ext p b ds net \<noteq> None)"

text \<open>
  The second-stage array is not empty, the count agrees with the overflow array, which
  is within the threshold, and the threshold is below \<open>INT_MAX\<close>.
\<close>

definition steady :: "('k, 'v, 'net) rmi \<Rightarrow> bool" where
  "steady s \<longleftrightarrow>
     m_secondStageNetworks s \<noteq> []
     \<and> counter_ok s
     \<and> int (length (m_overflowArray s)) \<le> sint (m_maxOverflowSize s)
     \<and> sint (m_maxOverflowSize s) < 2 ^ 31 - 1"

section \<open>Facts about the embedding\<close>

lemmas eval_defs =
  run_def RecursiveModelIndex_def plain_externals_def libstdcxx_externals_def params_def
  insert_rmi_def train_def trainFirstStage_def trainSecondStage_def stage_of_def
  float_to_int_def cpp_div_def train_stage_def numeral_eq_Suc

subsection \<open>What a completed call leaves behind\<close>

lemma RecursiveModelIndex_Inr:
  assumes "RecursiveModelIndex ext fsp ssp n mx u = Inr s"
  shows "m_data s = []" and "m_overflowArray s = []" and "m_currentOverflowSize s = u"
    and "m_maxOverflowSize s = mx"
  using assms by (auto simp: RecursiveModelIndex_def split: option.splits)

lemma train_Inr:
  assumes "train ext s = Inr s'"
  shows "m_data s' = std_sort ext (m_data s @ m_overflowArray s)"
    and "m_overflowArray s' = []"
    and "m_currentOverflowSize s' = 0"
    and "m_maxOverflowSize s' = m_maxOverflowSize s"
  using assms
  by (auto simp: train_def trainFirstStage_def trainSecondStage_def
      split: sum.splits option.splits)

lemma insert_rmi_cases:
  assumes "insert_rmi ext key val s = Inr s'"
  obtains
    (retrain) "sint (m_currentOverflowSize s + 1) = sint (m_currentOverflowSize s) + 1"
      "sint (m_maxOverflowSize s) < sint (m_currentOverflowSize s) + 1"
      "train ext (s\<lparr>m_overflowArray := m_overflowArray s @ [(key, val)],
                     m_currentOverflowSize := m_currentOverflowSize s + 1\<rparr>) = Inr s'"
  | (buffered) "sint (m_currentOverflowSize s + 1) = sint (m_currentOverflowSize s) + 1"
      "sint (m_currentOverflowSize s) + 1 \<le> sint (m_maxOverflowSize s)"
      "s' = s\<lparr>m_overflowArray := m_overflowArray s @ [(key, val)],
              m_currentOverflowSize := m_currentOverflowSize s + 1\<rparr>"
proof -
  from assms have ne: "sint (m_currentOverflowSize s) \<noteq> 2 ^ 31 - 1"
    by (auto simp: insert_rmi_def split: if_splits)
  have "- (2 ^ 31) \<le> sint (m_currentOverflowSize s)"
    using sint_ge [of "m_currentOverflowSize s"] by simp
  moreover have "sint (m_currentOverflowSize s) < 2 ^ 31"
    using sint_lt [of "m_currentOverflowSize s"] by simp
  ultimately have step: "sint (m_currentOverflowSize s + 1) = sint (m_currentOverflowSize s) + 1"
    using ne by (simp add: sint_word_ariths signed_take_bit_int_eq_self)
  show thesis
  proof (cases "sint (m_maxOverflowSize s) < sint (m_currentOverflowSize s) + 1")
    case True
    with assms ne step show thesis
      by (intro retrain) (simp_all add: insert_rmi_def)
  next
    case False
    with assms ne step show thesis
      by (intro buffered) (simp_all add: insert_rmi_def)
  qed
qed

lemma calls_append:
  "calls ext (xs @ ys) t =
     (case calls ext xs t of Inl e \<Rightarrow> Inl e | Inr t' \<Rightarrow> calls ext ys t')"
  by (induction xs arbitrary: t) (auto split: sum.splits)

lemma inserted_Cons: "inserted (c # cs) = inserted [c] @ inserted cs"
  by (cases c) simp_all

subsection \<open>The instances meet the contract of \<open>std::sort\<close>\<close>

lemma plain_contract: "std_sort_contract (std_sort plain_externals)"
  by (simp add: plain_externals_def std_sort_contract_def)

lemma train_example:
  "train plain_externals example_state =
     Inr (example_state\<lparr>m_data := [(1, 10), (1, 11), (3, 30), (4, 40)],
            m_overflowArray := [], m_currentOverflowSize := 0\<rparr>)"
  by (simp add: example_state_def eval_defs)

lemma retrain_example:
  "train plain_externals
     (example_state\<lparr>m_data := [(1, 10), (1, 11), (3, 30), (4, 40)],
        m_overflowArray := [], m_currentOverflowSize := 0\<rparr>) =
   Inr (example_state\<lparr>m_data := [(1, 10), (1, 11), (3, 30), (4, 40)],
          m_overflowArray := [], m_currentOverflowSize := 0\<rparr>)"
  by (simp add: example_state_def eval_defs)

subsection \<open>Runs of \<open>libstdcxx_sort\<close>\<close>

text \<open>
  On the four records of \<open>example_state\<close> the sort of libstdc++ returns what the
  insertion sort of \<open>plain_externals\<close> returns.
\<close>

lemma libstdcxx_sort_example:
  "libstdcxx_sort train_comparator [(1::int, 10::int), (4, 40), (3, 30), (1, 11)] =
   sort_key fst [(1, 10), (4, 40), (3, 30), (1, 11)]"
  by code_simp

text \<open>Ten records of one key stay as they are.\<close>

lemma libstdcxx_sort_ten:
  "libstdcxx_sort train_comparator
     [(1::int, 0::int), (1, 1), (1, 2), (1, 3), (1, 4), (1, 5), (1, 6),
      (1, 7), (1, 8), (1, 9)] =
   [(1, 0), (1, 1), (1, 2), (1, 3), (1, 4), (1, 5), (1, 6), (1, 7), (1, 8),
      (1, 9)]"
  by code_simp

text \<open>
  Seventeen records of one key: \<open>__move_median_to_first\<close> exchanges positions 0 and 8,
  \<open>__unguarded_partition\<close> reverses positions 1 to 16, and the insertion sort moves
  nothing.
\<close>

lemma libstdcxx_sort_seventeen:
  "libstdcxx_sort train_comparator
     [(1::int, 0::int), (1, 1), (1, 2), (1, 3), (1, 4), (1, 5), (1, 6),
      (1, 7), (1, 8), (1, 9), (1, 10), (1, 11), (1, 12), (1, 13), (1, 14),
      (1, 15), (1, 16)] =
   [(1, 8), (1, 16), (1, 15), (1, 14), (1, 13), (1, 12), (1, 11), (1, 10),
      (1, 9), (1, 0), (1, 7), (1, 6), (1, 5), (1, 4), (1, 3), (1, 2), (1, 1)]"
  by code_simp

lemma libstdcxx_sort_again:
  "libstdcxx_sort train_comparator
     [(1::int, 8::int), (1, 16), (1, 15), (1, 14), (1, 13), (1, 12), (1, 11),
      (1, 10), (1, 9), (1, 0), (1, 7), (1, 6), (1, 5), (1, 4), (1, 3),
      (1, 2), (1, 1)] =
   [(1, 9), (1, 1), (1, 2), (1, 3), (1, 4), (1, 5), (1, 6), (1, 7), (1, 0),
      (1, 8), (1, 10), (1, 11), (1, 12), (1, 13), (1, 14), (1, 15), (1, 16)]"
  by code_simp

section \<open>Lookup\<close>

lemma find_Some_holds: "find P xs = Some r \<Longrightarrow> P r \<and> r \<in> set xs"
  by (induction xs) (auto split: if_splits)

text \<open>
  A key that is in the overflow array is found there: \<open>find\<close> returns a record of the
  array with that key.
\<close>

lemma find_in_overflow:
  assumes "key \<in> fst ` set (m_overflowArray s)"
  shows "fst (find_rmi key s) = key \<and> find_rmi key s \<in> set (m_overflowArray s)"
proof (cases "find (\<lambda>pair. fst pair = key) (m_overflowArray s)")
  case None
  with assms show ?thesis by (force simp: find_None_iff)
next
  case (Some r)
  with find_Some_holds [OF Some] show ?thesis by (simp add: find_rmi_def)
qed

text \<open>
  \<open>train\<close> clears the overflow array, and \<open>find\<close> reads nothing else: after a
  completed \<open>train\<close>, \<open>find\<close> returns the value-initialised pair for every key.
\<close>

lemma find_after_train:
  assumes "train ext s = Inr s'"
  shows "find_rmi key s' = (0, 0)"
  using train_Inr(2) [OF assms] by (simp add: find_rmi_def)

text \<open>
  C1 (round-trip lookup) does not hold of the code. The record \<open>(7, 42)\<close> is inserted
  and \<open>train()\<close> is called: the record is in \<open>m_data\<close>, and \<open>find(7)\<close> returns the
  pair \<open>(0, 0)\<close>. The same happens in the scenario of the specification, where the
  sixth insert retrains an index with threshold 5 whose count started at 0.
\<close>

theorem merged_record_not_found:
  "map_sum id m_data
     (run plain_externals (params 32) (params 32) 4 5 0 [Insert 7 42, Train]) =
     Inr [(7, 42)]
   \<and> map_sum id (find_rmi 7)
     (run plain_externals (params 32) (params 32) 4 5 0 [Insert 7 42, Train]) =
     Inr (0, 0)
   \<and> map_sum id (find_rmi 7)
     (run plain_externals (params 32) (params 32) 4 5 0
        [Insert 10 1, Insert 3 2, Insert 7 3, Insert 1 4, Insert 9 5, Insert 2 6]) =
     Inr (0, 0)"
  by (simp add: eval_defs find_rmi_def)

text \<open>
  C2 (not-found signalling), as amended: for every key with no matching record in the
  overflow array or in the dataset, \<open>find\<close> returns the value-initialised pair, key
  \<open>0\<close> and value \<open>0\<close>. The return type \<open>std::pair<KeyType, ValueType>\<close> has no
  other value to signal absence with.
\<close>

theorem not_found_is_default_pair:
  assumes "key \<notin> fst ` set (m_overflowArray s)" and "key \<notin> fst ` set (m_data s)"
  shows "find_rmi key s = (0, 0)"
proof -
  have "find (\<lambda>pair. fst pair = key) (m_overflowArray s) = None"
    using assms(1) by (force simp: find_None_iff)
  then show ?thesis by (simp add: find_rmi_def)
qed

theorem not_found_is_default_pair_witness:
  "(99::int) \<notin> fst ` set (m_overflowArray example_state)
   \<and> 99 \<notin> fst ` set (m_data example_state)
   \<and> find_rmi 99 example_state = (0, 0)"
  using not_found_is_default_pair [of 99 example_state]
  by (simp add: example_state_def)

text \<open>
  C2 as stated fails: on a fresh index \<open>find(0)\<close> returns \<open>(0, 0)\<close>, and after
  \<open>insert(0, 0)\<close> it returns the stored record \<open>(0, 0)\<close>. The two results are equal.
\<close>

theorem not_found_counterexample:
  "map_sum id (find_rmi 0) (run plain_externals (params 32) (params 32) 4 5 0 []) =
     Inr (0, 0)
   \<and> map_sum id m_overflowArray
       (run plain_externals (params 32) (params 32) 4 5 0 [Insert 0 0]) = Inr [(0, 0)]
   \<and> map_sum id (find_rmi 0)
       (run plain_externals (params 32) (params 32) 4 5 0 [Insert 0 0]) = Inr (0, 0)"
  by (simp add: eval_defs find_rmi_def)

section \<open>Merging\<close>

lemma train_sorted:
  assumes "std_sort_contract (std_sort ext)" and "train ext s = Inr s'"
  shows "sorted (map fst (m_data s'))"
  using assms(1) train_Inr(1) [OF assms(2)] by (simp add: std_sort_contract_def)

lemma train_records:
  assumes "std_sort_contract (std_sort ext)" and "train ext s = Inr s'"
  shows "mset (m_overflowArray s') + mset (m_data s') =
         mset (m_overflowArray s) + mset (m_data s)"
  using assms(1) train_Inr(1,2) [OF assms(2)]
  by (simp add: std_sort_contract_def)

lemma insert_records:
  assumes "std_sort_contract (std_sort ext)" and "insert_rmi ext key val s = Inr s'"
  shows "mset (m_overflowArray s') + mset (m_data s') =
         {#(key, val)#} + mset (m_overflowArray s) + mset (m_data s)"
  using assms(2)
proof (cases rule: insert_rmi_cases)
  case retrain
  from train_records [OF assms(1) retrain(3)] show ?thesis by simp
next
  case buffered
  then show ?thesis by simp
qed

lemma call_records:
  assumes "std_sort_contract (std_sort ext)" and "call_rmi ext c s = Inr s'"
  shows "mset (m_overflowArray s') + mset (m_data s') =
         mset (inserted [c]) + mset (m_overflowArray s) + mset (m_data s)"
proof (cases c)
  case (Insert key val)
  with assms insert_records [of ext key val s s'] show ?thesis by simp
next
  case (Find key)
  with assms show ?thesis by auto
next
  case Train
  with assms train_records [of ext s s'] show ?thesis by simp
qed

lemma calls_records:
  assumes "std_sort_contract (std_sort ext)"
  shows "calls ext cs s = Inr s' \<Longrightarrow>
         mset (m_overflowArray s') + mset (m_data s') =
         mset (inserted cs) + mset (m_overflowArray s) + mset (m_data s)"
proof (induction cs arbitrary: s)
  case Nil
  then show ?case by auto
next
  case (Cons c cs)
  from Cons.prems obtain s1 where c: "call_rmi ext c s = Inr s1"
    and r: "calls ext cs s1 = Inr s'"
    by (auto split: sum.splits)
  have "mset (inserted (c # cs)) = mset (inserted [c]) + mset (inserted cs)"
    by (subst inserted_Cons) simp
  with Cons.IH [OF r] call_records [OF assms c] show ?case by simp
qed

text \<open>
  C4 (no data loss): after every sequence of \<open>insert\<close>, \<open>find\<close> and \<open>train\<close> calls
  on a freshly constructed index, the multiset of the keys in the overflow array and in
  the dataset is the multiset of the keys passed to \<open>insert\<close>. It holds for every
  \<open>std::sort\<close> that returns a permutation and for every value the overflow count
  starts with.
\<close>

theorem no_data_loss:
  assumes "std_sort_contract (std_sort ext)"
    and "run ext fsp ssp n mx u cs = Inr s"
  shows "mset (map fst (m_overflowArray s)) + mset (map fst (m_data s)) =
         mset (map fst (inserted cs))"
proof -
  from assms(2) obtain s0 where c: "RecursiveModelIndex ext fsp ssp n mx u = Inr s0"
    and r: "calls ext cs s0 = Inr s"
    by (auto simp: run_def split: sum.splits)
  from calls_records [OF assms(1) r] RecursiveModelIndex_Inr(1,2) [OF c]
  have "mset (m_overflowArray s) + mset (m_data s) = mset (inserted cs)" by simp
  then have "image_mset fst (mset (m_overflowArray s) + mset (m_data s)) =
             image_mset fst (mset (inserted cs))" by simp
  then show ?thesis by simp
qed

theorem no_data_loss_witness:
  "std_sort_contract (std_sort plain_externals)
   \<and> run plain_externals (params 32) (params 32) 4 2 0
       [Insert 2 22, Insert 1 11, Find 2, Insert 2 23, Train, Insert 3 33] =
     Inr \<lparr> m_data = [(1, 11), (2, 22), (2, 23)],
           m_firstStageParams = params 32,
           m_secondStageParams = params 32,
           m_firstStageNetwork = (),
           m_secondStageNetworks = [(), (), (), ()],
           m_currentOverflowSize = 1,
           m_maxOverflowSize = 2,
           m_overflowArray = [(3, 33)] \<rparr>
   \<and> mset (map fst [(3::int, 33::int)]) + mset (map fst [(1::int, 11::int), (2, 22), (2, 23)]) =
     mset (map fst (inserted
       [Insert 2 22, Insert 1 11, Find 2, Insert (2::int) (23::int), Train, Insert 3 33]))"
proof -
  have r: "run plain_externals (params 32) (params 32) 4 2 0
       [Insert 2 22, Insert 1 11, Find 2, Insert 2 23, Train, Insert 3 33] =
     Inr \<lparr> m_data = [(1, 11), (2, 22), (2, 23)],
           m_firstStageParams = params 32,
           m_secondStageParams = params 32,
           m_firstStageNetwork = (),
           m_secondStageNetworks = [(), (), (), ()],
           m_currentOverflowSize = 1,
           m_maxOverflowSize = 2,
           m_overflowArray = [(3, 33)] \<rparr>"
    by (simp add: eval_defs)
  from no_data_loss [OF plain_contract r] plain_contract r show ?thesis
    by simp
qed



text \<open>
  C6 (stable merge), as amended: \<open>train()\<close> sorts with \<open>std::sort\<close>, which leaves the
  order of records with equal keys unspecified. After a completed \<open>train()\<close> the
  dataset is sorted by key and, for every key, its records with that key are the
  records with that key of the previous dataset and of the drained overflow array,
  each as often as there, in some order.
\<close>

theorem merge_keeps_records_per_key:
  assumes "std_sort_contract (std_sort ext)" and "train ext s = Inr s'"
  shows "sorted (map fst (m_data s')) \<and>
         mset (filter (\<lambda>r. fst r = key) (m_data s')) =
         mset (filter (\<lambda>r. fst r = key) (m_data s @ m_overflowArray s))"
proof -
  have "mset (m_data s') = mset (m_data s @ m_overflowArray s)"
    using assms(1) train_Inr(1) [OF assms(2)] by (simp add: std_sort_contract_def)
  then have "filter_mset (\<lambda>r. fst r = key) (mset (m_data s')) =
             filter_mset (\<lambda>r. fst r = key) (mset (m_data s @ m_overflowArray s))"
    by simp
  with train_sorted [OF assms] show ?thesis by simp
qed

theorem merge_keeps_records_per_key_witness:
  "std_sort_contract (std_sort plain_externals)
   \<and> train plain_externals example_state =
       Inr (example_state\<lparr>m_data := [(1, 10), (1, 11), (3, 30), (4, 40)],
              m_overflowArray := [], m_currentOverflowSize := 0\<rparr>)
   \<and> sorted (map fst [(1::int, 10::int), (1, 11), (3, 30), (4, 40)])
   \<and> mset (filter (\<lambda>r. fst r = 1) [(1::int, 10::int), (1, 11), (3, 30), (4, 40)]) =
     mset (filter (\<lambda>r. fst r = 1) ([(1, 10), (4, 40)] @ [(3, 30), (1, 11)]))"
  using merge_keeps_records_per_key [OF plain_contract train_example, of 1]
    plain_contract train_example
  by (simp add: example_state_def)

text \<open>
  C6 as stated fails in a run of the code with the \<open>std::sort\<close> of libstdc++. Ten
  records with key 1 are inserted and merged, seven more with key 1 are inserted. A
  stable merge keeps the seventeen in the order of their insertion. After the second
  \<open>train()\<close> the dataset starts with the merged record \<open>(1, 8)\<close>, followed by the
  drained records \<open>(1, 16)\<close> down to \<open>(1, 10)\<close>, all of them before the merged record
  \<open>(1, 0)\<close>.
\<close>

theorem stable_merge_counterexample:
  "map_sum id m_data
     (run libstdcxx_externals (params 32) (params 32) 4 100 0 (first_ten @ [Train])) =
     Inr [(1, 0), (1, 1), (1, 2), (1, 3), (1, 4), (1, 5), (1, 6), (1, 7), (1, 8),
      (1, 9)]
   \<and> map_sum id m_overflowArray
     (run libstdcxx_externals (params 32) (params 32) 4 100 0
        (first_ten @ [Train] @ next_seven)) =
     Inr [(1, 10), (1, 11), (1, 12), (1, 13), (1, 14), (1, 15), (1, 16)]
   \<and> map_sum id spec_stable_merge
     (run libstdcxx_externals (params 32) (params 32) 4 100 0
        (first_ten @ [Train] @ next_seven)) =
     Inr [(1, 0), (1, 1), (1, 2), (1, 3), (1, 4), (1, 5), (1, 6), (1, 7), (1, 8),
      (1, 9), (1, 10), (1, 11), (1, 12), (1, 13), (1, 14), (1, 15), (1, 16)]
   \<and> map_sum id m_data
     (run libstdcxx_externals (params 32) (params 32) 4 100 0
        (first_ten @ [Train] @ next_seven @ [Train])) =
     Inr [(1, 8), (1, 16), (1, 15), (1, 14), (1, 13), (1, 12), (1, 11), (1, 10),
      (1, 9), (1, 0), (1, 7), (1, 6), (1, 5), (1, 4), (1, 3), (1, 2), (1, 1)]"
  by (simp add: eval_defs first_ten_def next_seven_def spec_stable_merge_def
      libstdcxx_sort_ten libstdcxx_sort_seventeen)

text \<open>
  C8 (idempotent retrain), as amended: when \<open>train()\<close> is called twice with no insert
  between, the dataset after the second call has the records of the dataset after the
  first, each as often, and the same sequence of keys; records with equal keys may
  stand in another order. The two calls may differ in their random batches and their
  weights, so each has its own externals.
\<close>

theorem retrain_content_equal:
  assumes "std_sort_contract (std_sort ext1)" and "std_sort_contract (std_sort ext2)"
    and "train ext1 s = Inr s1" and "train ext2 s1 = Inr s2"
  shows "mset (m_data s2) = mset (m_data s1) \<and> map fst (m_data s2) = map fst (m_data s1)"
proof -
  have d2: "m_data s2 = std_sort ext2 (m_data s1)"
    using train_Inr(1) [OF assms(4)] train_Inr(2) [OF assms(3)] by simp
  then have m: "mset (m_data s2) = mset (m_data s1)"
    using assms(2) by (simp add: std_sort_contract_def)
  have "sorted (map fst (m_data s1))" by (rule train_sorted [OF assms(1,3)])
  moreover have "sorted (map fst (m_data s2))" by (rule train_sorted [OF assms(2,4)])
  moreover have "mset (map fst (m_data s2)) = mset (map fst (m_data s1))" using m by simp
  ultimately have "map fst (m_data s2) = map fst (m_data s1)"
    by (metis properties_for_sort)
  with m show ?thesis by simp
qed

theorem retrain_content_equal_witness:
  "std_sort_contract (std_sort plain_externals)
   \<and> train plain_externals example_state =
       Inr (example_state\<lparr>m_data := [(1, 10), (1, 11), (3, 30), (4, 40)],
              m_overflowArray := [], m_currentOverflowSize := 0\<rparr>)
   \<and> train plain_externals
       (example_state\<lparr>m_data := [(1, 10), (1, 11), (3, 30), (4, 40)],
          m_overflowArray := [], m_currentOverflowSize := 0\<rparr>) =
       Inr (example_state\<lparr>m_data := [(1, 10), (1, 11), (3, 30), (4, 40)],
              m_overflowArray := [], m_currentOverflowSize := 0\<rparr>)
   \<and> mset [(1::int, 10::int), (1, 11), (3, 30), (4, 40)] =
     mset [(1, 10), (1, 11), (3, 30), (4, 40)]
   \<and> map fst [(1::int, 10::int), (1, 11), (3, 30), (4, 40)] =
     map fst [(1::int, 10::int), (1, 11), (3, 30), (4, 40)]"
  using retrain_content_equal [OF plain_contract plain_contract train_example retrain_example]
    plain_contract train_example retrain_example
  by simp

text \<open>
  C8 as stated fails in a run of the code with the \<open>std::sort\<close> of libstdc++: the
  dataset is not left unchanged. After seventeen inserts with key 1 and one \<open>train()\<close>
  the dataset starts with \<open>(1, 8)\<close>; after a second \<open>train()\<close> with no insert between
  it starts with \<open>(1, 9)\<close>.
\<close>

theorem retrain_counterexample:
  "map_sum id m_data
     (run libstdcxx_externals (params 32) (params 32) 4 100 0
        (first_ten @ next_seven @ [Train])) =
     Inr [(1, 8), (1, 16), (1, 15), (1, 14), (1, 13), (1, 12), (1, 11), (1, 10),
      (1, 9), (1, 0), (1, 7), (1, 6), (1, 5), (1, 4), (1, 3), (1, 2), (1, 1)]
   \<and> map_sum id m_data
     (run libstdcxx_externals (params 32) (params 32) 4 100 0
        (first_ten @ next_seven @ [Train, Train])) =
     Inr [(1, 9), (1, 1), (1, 2), (1, 3), (1, 4), (1, 5), (1, 6), (1, 7), (1, 0),
      (1, 8), (1, 10), (1, 11), (1, 12), (1, 13), (1, 14), (1, 15), (1, 16)]
   \<and> [(1::int, 8::int), (1, 16), (1, 15), (1, 14), (1, 13), (1, 12), (1, 11),
      (1, 10), (1, 9), (1, 0), (1, 7), (1, 6), (1, 5), (1, 4), (1, 3),
      (1, 2), (1, 1)] \<noteq>
     [(1, 9), (1, 1), (1, 2), (1, 3), (1, 4), (1, 5), (1, 6), (1, 7), (1, 0),
      (1, 8), (1, 10), (1, 11), (1, 12), (1, 13), (1, 14), (1, 15), (1, 16)]"
  by (simp add: eval_defs first_ten_def next_seven_def
      libstdcxx_sort_seventeen libstdcxx_sort_again)

section \<open>Routing to the second stage\<close>

lemma cpp_div_nonneg: "0 \<le> a \<Longrightarrow> 0 < b \<Longrightarrow> cpp_div a b = a div b"
  by (cases "a = 0") (simp_all add: cpp_div_def)

lemma cpp_div_nonpos: "a \<le> 0 \<Longrightarrow> 0 < b \<Longrightarrow> cpp_div a b \<le> 0"
  by (simp add: cpp_div_def sgn_if pos_imp_zdiv_nonneg_iff)

text \<open>Whenever the stage is computed, it is an index of the array.\<close>

lemma stage_of_range:
  assumes "stage_of p N = Inr stage" and "1 \<le> N"
  shows "0 \<le> stage \<and> stage \<le> N - 1"
  using assms
  by (auto simp: stage_of_def Let_def split: sum.splits if_splits)

text \<open>
  For a position whose truncation is an \<open>int\<close>, the stage is the one of the routing
  policy: truncation and floor differ only at negative positions, which the cap sends
  to stage 0 either way.
\<close>

lemma stage_of_representable:
  assumes N: "1 \<le> N" and lo: "- (2 ^ 31) - 1 < p" and hi: "p < 2 ^ 31"
  shows "stage_of p N = Inr (spec_clamp \<lfloor>p / real_of_int N\<rfloor> 0 (N - 1))"
proof (cases "0 \<le> p")
  case True
  have up: "\<lfloor>p\<rfloor> < 2 ^ 31" using hi by (simp add: floor_less_iff)
  have nn: "0 \<le> \<lfloor>p\<rfloor>" using True by simp
  have f: "float_to_int p = Inr \<lfloor>p\<rfloor>"
    using True up nn by (simp add: float_to_int_def)
  have d: "cpp_div \<lfloor>p\<rfloor> N = \<lfloor>p\<rfloor> div N"
    using nn N by (simp add: cpp_div_nonneg)
  have e: "\<lfloor>p / real_of_int N\<rfloor> = \<lfloor>p\<rfloor> div N"
    using N by (simp add: floor_divide_real_eq_div)
  have q: "0 \<le> \<lfloor>p\<rfloor> div N"
    using nn N by (simp add: pos_imp_zdiv_nonneg_iff)
  show ?thesis
    using N q by (simp add: stage_of_def f d e spec_clamp_def Let_def)
next
  case False
  then have neg: "p < 0" by simp
  have c0: "\<lceil>p\<rceil> \<le> 0" using neg by (simp add: ceiling_le_iff)
  have "- (2 ^ 31) - 1 < \<lceil>p\<rceil>" using lo by (simp add: less_ceiling_iff)
  then have c1: "- (2 ^ 31) \<le> \<lceil>p\<rceil>" by simp
  have f: "float_to_int p = Inr \<lceil>p\<rceil>"
    using False c0 c1 by (simp add: float_to_int_def)
  have d: "cpp_div \<lceil>p\<rceil> N \<le> 0"
    using c0 N by (simp add: cpp_div_nonpos)
  have "p / real_of_int N < 0"
    using neg N by (simp add: divide_neg_pos)
  then have e: "\<lfloor>p / real_of_int N\<rfloor> < 0" by (simp add: floor_less_iff)
  show ?thesis
    using N d e by (simp add: stage_of_def f spec_clamp_def Let_def max_def min_def)
qed

lemma perStageDataset_loop_length:
  "perStageDataset_loop pos rs ii acc = Inr out \<Longrightarrow> length out = length acc"
  by (induction rs arbitrary: ii acc) (auto split: option.splits sum.splits if_splits)

text \<open>The access \<open>perStageDataset[stage]\<close> is never out of bounds.\<close>

lemma perStageDataset_loop_in_bounds:
  "perStageDataset_loop pos rs ii acc \<noteq> Inl IndexOutOfBounds"
proof (induction rs arbitrary: ii acc)
  case Nil
  show ?case by simp
next
  case (Cons r rs)
  show ?case
  proof (cases "pos (fst r)")
    case None
    then show ?thesis by simp
  next
    case (Some p)
    show ?thesis
    proof (cases "stage_of p (int (length acc))")
      case (Inl e)
      then have "e \<noteq> IndexOutOfBounds"
        by (auto simp: stage_of_def float_to_int_def Let_def split: sum.splits if_splits)
      with Some Inl show ?thesis by simp
    next
      case (Inr stage)
      then have "length acc \<noteq> 0"
        by (auto simp: stage_of_def split: sum.splits if_splits)
      then have "1 \<le> int (length acc)" by (cases acc) simp_all
      from stage_of_range [OF Inr this] have "0 \<le> stage \<and> stage < int (length acc)" by simp
      with Some Inr Cons.IH show ?thesis by simp
    qed
  qed
qed

text \<open>
  C7 (routing formula and bounds) does not hold of the code for every position. The
  float \<open>2147483648\<close> is a position the first stage can predict; its truncation is
  not an \<open>int\<close>, so \<open>static_cast<int>\<close> is undefined before the cap of lines 215 and
  216 is reached, and no stage is computed. The routing policy gives stage
  \<open>clamp(floor(2147483648 / 4), 0, 3) = 3\<close>.
\<close>

theorem stage_of_unrepresentable:
  "stage_of 2147483648 4 = Inl FloatToIntOutOfRange
   \<and> spec_clamp \<lfloor>2147483648 / real_of_int 4\<rfloor> 0 (4 - 1) = 3"
  by (simp add: stage_of_def float_to_int_def spec_clamp_def)

section \<open>Construction\<close>

lemma new_second_stage_nets_Some:
  "new_second_stage_net ext b = Some net \<Longrightarrow>
   new_second_stage_nets ext b n = Some (replicate n net)"
  by (induction n) simp_all

text \<open>
  C9 (misconfiguration rejected at construction), as amended: the constructor checks
  neither the size of the second-stage array nor a batch size. It returns an index,
  with empty dataset and empty overflow array, whenever the network library builds
  the first-stage network and, for an array that is not empty, the second-stage
  network; for an empty array the second-stage parameters are not even passed to
  the library.
\<close>

theorem constructor_validates_nothing:
  assumes "new_first_stage_net ext fsp = Some net1"
    and "n = 0 \<or> new_second_stage_net ext (batchSize ssp) = Some net2"
  shows "\<exists>s. RecursiveModelIndex ext fsp ssp n mx u = Inr s
             \<and> m_data s = [] \<and> m_overflowArray s = []
             \<and> length (m_secondStageNetworks s) = n \<and> m_maxOverflowSize s = mx"
proof (cases "n = 0")
  case True
  with assms(1) show ?thesis by (simp add: RecursiveModelIndex_def)
next
  case False
  with assms(2) have "new_second_stage_nets ext (batchSize ssp) n = Some (replicate n net2)"
    by (simp add: new_second_stage_nets_Some)
  with assms(1) show ?thesis by (simp add: RecursiveModelIndex_def)
qed

theorem constructor_validates_nothing_witness:
  "new_first_stage_net plain_externals (params 32) = Some ()
   \<and> ((0::nat) = 0 \<or> new_second_stage_net plain_externals (batchSize (params 0)) = Some ())
   \<and> (\<exists>s. RecursiveModelIndex plain_externals (params 32) (params 0) 0 5 0 = Inr s
          \<and> m_data s = [] \<and> m_overflowArray s = []
          \<and> length (m_secondStageNetworks s) = 0 \<and> m_maxOverflowSize s = 5)"
proof -
  have h: "new_first_stage_net plain_externals (params 32) = Some ()"
    by (simp add: plain_externals_def params_def)
  from constructor_validates_nothing [OF h, of 0 "params 0" "()" 5 0] h
  show ?thesis by simp
qed

text \<open>
  C9 as stated fails: with a second-stage array of size 0 and a second-stage batch size
  of 0 the constructor returns an index, even with a library that refuses such a batch
  size, and the index takes an insert and answers a find.
\<close>

theorem constructor_counterexample:
  "map_sum id m_secondStageNetworks
     (RecursiveModelIndex plain_externals (params 32) (params 0) 0 5 0) = Inr []
   \<and> map_sum id m_secondStageParams
     (RecursiveModelIndex plain_externals (params 32) (params 0) 0 5 0) = Inr (params 0)
   \<and> new_second_stage_net plain_externals (batchSize (params 0)) = None
   \<and> map_sum id (find_rmi 7)
       (run plain_externals (params 32) (params 0) 0 5 0 [Insert 7 42]) = Inr (7, 42)"
  by (simp add: eval_defs find_rmi_def)

section \<open>The overflow count\<close>

lemma train_counter_ok: "train ext s = Inr s' \<Longrightarrow> counter_ok s'"
  using train_Inr(2,3) [of ext s s'] by (simp add: counter_ok_def)

lemma insert_counter_ok:
  assumes "counter_ok s" and "insert_rmi ext key val s = Inr s'"
  shows "counter_ok s'"
  using assms(2)
proof (cases rule: insert_rmi_cases)
  case retrain
  then show ?thesis by (simp add: train_counter_ok)
next
  case buffered
  with assms(1) show ?thesis by (simp add: counter_ok_def)
qed

text \<open>
  Every completed call keeps the count equal to the length of the overflow array, and
  a completed \<open>train\<close> makes them equal whatever they were.
\<close>

lemma call_counter_ok:
  assumes "counter_ok s" and "call_rmi ext c s = Inr s'"
  shows "counter_ok s'"
proof (cases c)
  case (Insert key val)
  with assms insert_counter_ok [of s ext key val s'] show ?thesis by simp
next
  case (Find key)
  with assms show ?thesis by auto
next
  case Train
  with assms train_counter_ok [of ext s s'] show ?thesis by simp
qed

lemma calls_counter_ok:
  "counter_ok s \<Longrightarrow> calls ext cs s = Inr s' \<Longrightarrow> counter_ok s'"
proof (induction cs arbitrary: s)
  case Nil
  then show ?case by auto
next
  case (Cons c cs)
  from Cons.prems(2) obtain s1 where c: "call_rmi ext c s = Inr s1"
    and r: "calls ext cs s1 = Inr s'"
    by (auto split: sum.splits)
  from Cons.IH [OF call_counter_ok [OF Cons.prems(1) c] r] show ?case .
qed

text \<open>
  C10 (overflow counter consistency) does not hold of the code at construction. The
  constructor leaves \<open>m_currentOverflowSize\<close> with whatever its storage held, here 7,
  while the overflow array is empty.
\<close>

theorem counter_not_initialised:
  "map_sum id m_currentOverflowSize
     (RecursiveModelIndex plain_externals (params 32) (params 32) 4 5 7) = Inr 7
   \<and> map_sum id m_overflowArray
     (RecursiveModelIndex plain_externals (params 32) (params 32) 4 5 7) = Inr []
   \<and> map_sum id counter_ok
     (RecursiveModelIndex plain_externals (params 32) (params 32) 4 5 7) = Inr False"
  by (simp add: eval_defs counter_ok_def)

section \<open>The threshold\<close>

text \<open>
  From a state whose count agrees with the overflow array, a completed \<open>insert\<close>
  leaves at most \<open>m_maxOverflowSize\<close> records in the overflow array, for a threshold
  that is not negative.
\<close>

lemma insert_overflow_bounded:
  assumes "counter_ok s" and "0 \<le> sint (m_maxOverflowSize s)"
    and "insert_rmi ext key val s = Inr s'"
  shows "int (length (m_overflowArray s')) \<le> sint (m_maxOverflowSize s')"
  using assms(3)
proof (cases rule: insert_rmi_cases)
  case retrain
  from train_Inr(2,4) [OF retrain(3)] assms(2) show ?thesis by simp
next
  case buffered
  with assms(1) show ?thesis by (simp add: counter_ok_def)
qed

lemma inserts_below_threshold:
  assumes "counter_ok s"
    and "int (length (m_overflowArray s)) + int (length recs) \<le> sint (m_maxOverflowSize s)"
  shows "\<exists>s1. calls ext (map (\<lambda>(key, val). Insert key val) recs) s = Inr s1
              \<and> m_overflowArray s1 = m_overflowArray s @ recs
              \<and> m_data s1 = m_data s
              \<and> m_maxOverflowSize s1 = m_maxOverflowSize s
              \<and> counter_ok s1"
  using assms
proof (induction recs arbitrary: s)
  case Nil
  then show ?case by simp
next
  case (Cons r recs)
  obtain key val where r: "r = (key, val)" by (cases r)
  let ?s1 = "s\<lparr>m_overflowArray := m_overflowArray s @ [(key, val)],
                m_currentOverflowSize := m_currentOverflowSize s + 1\<rparr>"
  have mx: "sint (m_maxOverflowSize s) < 2 ^ 31"
    using sint_lt [of "m_maxOverflowSize s"] by simp
  have lt: "sint (m_currentOverflowSize s) < 2 ^ 31 - 1"
    using Cons.prems mx by (simp add: counter_ok_def)
  have "- (2 ^ 31) \<le> sint (m_currentOverflowSize s)"
    using sint_ge [of "m_currentOverflowSize s"] by simp
  with lt have step: "sint (m_currentOverflowSize s + 1) = sint (m_currentOverflowSize s) + 1"
    by (simp add: sint_word_ariths signed_take_bit_int_eq_self)
  have ins: "insert_rmi ext key val s = Inr ?s1"
    using Cons.prems step lt by (simp add: insert_rmi_def counter_ok_def)
  have ok1: "counter_ok ?s1"
    using Cons.prems(1) step by (simp add: counter_ok_def)
  have le1: "int (length (m_overflowArray ?s1)) + int (length recs)
             \<le> sint (m_maxOverflowSize ?s1)"
    using Cons.prems(2) by simp
  from Cons.IH [OF ok1 le1] ins r show ?case
    by auto
qed

text \<open>
  From a state whose count agrees with an empty overflow array, \<open>maxOverflowSize + 1\<close>
  inserts that complete leave the overflow array empty and all their records in the
  dataset. The last insert retrains, which needs the threshold below \<open>INT_MAX\<close>.
\<close>

lemma threshold_trigger_from_consistent_counter:
  assumes "std_sort_contract (std_sort ext)"
    and "counter_ok s" and "m_overflowArray s = []"
    and "0 \<le> sint (m_maxOverflowSize s)" and "sint (m_maxOverflowSize s) < 2 ^ 31 - 1"
    and "int (length recs) = sint (m_maxOverflowSize s) + 1"
    and "calls ext (map (\<lambda>(key, val). Insert key val) recs) s = Inr s'"
  shows "m_overflowArray s' = [] \<and> mset (m_data s') = mset (m_data s) + mset recs"
proof -
  from assms(4,6) have "recs \<noteq> []" by auto
  then obtain front r where recs: "recs = front @ [r]"
    by (metis rev_exhaust)
  obtain key val where r: "r = (key, val)" by (cases r)
  have len: "int (length front) = sint (m_maxOverflowSize s)"
    using assms(6) recs by simp
  have "int (length (m_overflowArray s)) + int (length front) \<le> sint (m_maxOverflowSize s)"
    using assms(3) len by simp
  from inserts_below_threshold [OF assms(2) this, of ext]
  obtain s1 where c1: "calls ext (map (\<lambda>(key, val). Insert key val) front) s = Inr s1"
    and o1: "m_overflowArray s1 = front" and d1: "m_data s1 = m_data s"
    and m1: "m_maxOverflowSize s1 = m_maxOverflowSize s" and k1: "counter_ok s1"
    using assms(3) by auto
  have last: "insert_rmi ext key val s1 = Inr s'"
    using assms(7) c1 by (simp add: recs r calls_append split: sum.splits)
  have cnt: "sint (m_currentOverflowSize s1) = sint (m_maxOverflowSize s)"
    using k1 o1 len by (simp add: counter_ok_def)
  from last show ?thesis
  proof (cases rule: insert_rmi_cases)
    case retrain
    from train_Inr(1,2) [OF retrain(3)] assms(1) o1 d1 recs r show ?thesis
      by (simp add: std_sort_contract_def)
  next
    case buffered
    with cnt m1 show ?thesis by simp
  qed
qed

text \<open>
  C3 (threshold trigger and drain-to-zero) does not hold of the code, for the reason C10
  does not: the count that \<open>insert\<close> compares with the threshold starts with an
  indeterminate value. With threshold 1 and a count that starts at \<open>-5\<close>, two inserts
  leave two records in the overflow array and none in the dataset.
\<close>

theorem threshold_not_triggered:
  "map_sum id m_overflowArray
     (run plain_externals (params 32) (params 32) 4 1 (- 5) [Insert 10 1, Insert 3 2]) =
     Inr [(10, 1), (3, 2)]
   \<and> map_sum id m_data
     (run plain_externals (params 32) (params 32) 4 1 (- 5) [Insert 10 1, Insert 3 2]) =
     Inr []
   \<and> map_sum id m_maxOverflowSize
     (run plain_externals (params 32) (params 32) 4 1 (- 5) [Insert 10 1, Insert 3 2]) =
     Inr 1"
  by (simp add: eval_defs)

section \<open>When calls complete\<close>

lemma perStageDataset_loop_completes:
  assumes "\<forall>r \<in> set rs. \<exists>p. pos (fst r) = Some p \<and> - (2 ^ 31) - 1 < p \<and> p < 2 ^ 31"
    and "acc \<noteq> []"
  shows "\<exists>out. perStageDataset_loop pos rs ii acc = Inr out"
  using assms
proof (induction rs arbitrary: ii acc)
  case Nil
  show ?case by simp
next
  case (Cons r rs)
  from Cons.prems(1) obtain p where p: "pos (fst r) = Some p"
    and lo: "- (2 ^ 31) - 1 < p" and hi: "p < 2 ^ 31" by auto
  have N: "1 \<le> int (length acc)" using Cons.prems(2) by (cases acc) simp_all
  let ?stage = "spec_clamp \<lfloor>p / real_of_int (int (length acc))\<rfloor> 0 (int (length acc) - 1)"
  have st: "stage_of p (int (length acc)) = Inr ?stage"
    by (rule stage_of_representable [OF N lo hi])
  from stage_of_range [OF st N] have b: "0 \<le> ?stage \<and> ?stage < int (length acc)" by simp
  let ?acc = "acc[nat ?stage := acc ! nat ?stage @ [(fst r, ii)]]"
  have "?acc \<noteq> []" using Cons.prems(2) by simp
  moreover have "\<forall>r \<in> set rs. \<exists>p. pos (fst r) = Some p \<and> - (2 ^ 31) - 1 < p \<and> p < 2 ^ 31"
    using Cons.prems(1) by simp
  ultimately obtain out where "perStageDataset_loop pos rs (Suc ii) ?acc = Inr out"
    using Cons.IH by blast
  with p st b show ?case by simp
qed

lemma train_stage_completes:
  assumes "\<forall>b. new_second_stage_net ext b \<noteq> None"
    and "\<forall>b ds net. second_stage_epochs ext ssp b ds net \<noteq> None"
  shows "\<exists>net'. train_stage ext ssp ds net = Inr net'"
proof (cases "ds = []")
  case True
  then show ?thesis by (simp add: train_stage_def)
next
  case False
  let ?n = "word_of_nat (length ds) :: int32"
  let ?b = "if sint ?n < sint (batchSize ssp) then ?n else batchSize ssp"
  let ?fresh = "if sint ?b < sint (batchSize ssp) then new_second_stage_net ext ?b else Some net"
  have "?fresh \<noteq> None" using assms(1) by simp
  then obtain net0 where f: "?fresh = Some net0" by blast
  have "second_stage_epochs ext ssp ?b ds net0 \<noteq> None" using assms(2) by blast
  then obtain net' where "second_stage_epochs ext ssp ?b ds net0 = Some net'" by blast
  with False f show ?thesis
    by (simp add: train_stage_def Let_def)
qed

lemma second_stage_loop_completes:
  assumes "\<forall>b. new_second_stage_net ext b \<noteq> None"
    and "\<forall>b ds net. second_stage_epochs ext ssp b ds net \<noteq> None"
  shows "\<exists>nets'. second_stage_loop ext ssp dss nets = Inr nets'"
proof (induction dss arbitrary: nets)
  case Nil
  show ?case by simp
next
  case (Cons ds dss)
  show ?case
  proof (cases nets)
    case Nil
    then show ?thesis by simp
  next
    case (Cons net nets0)
    obtain net' where t: "train_stage ext ssp ds net = Inr net'"
      using train_stage_completes [OF assms] by blast
    obtain nets' where "second_stage_loop ext ssp dss nets0 = Inr nets'"
      using Cons.IH by blast
    with t Cons show ?thesis by simp
  qed
qed

text \<open>
  \<open>train\<close> completes when the second-stage array is not empty, the library does not
  fail and every position the first stage predicts truncates to an \<open>int\<close>.
\<close>

lemma train_completes:
  assumes "m_secondStageNetworks s \<noteq> []"
    and "\<forall>p d net. first_stage_epochs ext p d net \<noteq> None"
    and "\<forall>net n key. \<exists>p. first_stage_position ext net n key = Some p
                        \<and> - (2 ^ 31) - 1 < p \<and> p < 2 ^ 31"
    and "\<forall>b. new_second_stage_net ext b \<noteq> None"
    and "\<forall>p b ds net. second_stage_epochs ext p b ds net \<noteq> None"
  shows "\<exists>s'. train ext s = Inr s'"
proof -
  let ?s0 = "s\<lparr>m_data := std_sort ext (m_data s @ m_overflowArray s)\<rparr>"
  have "first_stage_epochs ext (m_firstStageParams ?s0) (m_data ?s0)
      (m_firstStageNetwork ?s0) \<noteq> None"
    using assms(2) by blast
  then obtain net where e: "first_stage_epochs ext (m_firstStageParams ?s0) (m_data ?s0)
      (m_firstStageNetwork ?s0) = Some net"
    by blast
  let ?s1 = "?s0\<lparr>m_firstStageNetwork := net\<rparr>"
  have t1: "trainFirstStage ext ?s0 = Inr ?s1"
    using e by (simp add: trainFirstStage_def)
  let ?pos = "first_stage_position ext (m_firstStageNetwork ?s1) (length (m_data ?s1))"
  have "\<forall>r \<in> set (m_data ?s1). \<exists>p. ?pos (fst r) = Some p \<and> - (2 ^ 31) - 1 < p \<and> p < 2 ^ 31"
    using assms(3) by blast
  moreover have "replicate (length (m_secondStageNetworks ?s1)) [] \<noteq> []"
    using assms(1) by simp
  ultimately obtain psd where l1: "perStageDataset_loop ?pos (m_data ?s1) 0
      (replicate (length (m_secondStageNetworks ?s1)) []) = Inr psd"
    using perStageDataset_loop_completes by blast
  obtain nets where l2: "second_stage_loop ext (m_secondStageParams ?s1) psd
      (m_secondStageNetworks ?s1) = Inr nets"
    using second_stage_loop_completes [of ext "m_secondStageParams ?s1"] assms(4,5) by blast
  have t2: "trainSecondStage ext ?s1 = Inr (?s1\<lparr>m_secondStageNetworks := nets\<rparr>)"
    using l1 l2 by (simp add: trainSecondStage_def)
  show ?thesis
    using t1 t2 by (simp add: train_def)
qed

lemma train_total:
  assumes "externals_total ext" and "m_secondStageNetworks s \<noteq> []"
  shows "\<exists>s'. train ext s = Inr s'"
  using assms by (intro train_completes) (simp_all add: externals_total_def)

lemma second_stage_loop_length:
  "second_stage_loop ext ssp dss nets = Inr nets' \<Longrightarrow> length nets' = length nets"
  by (induction ext ssp dss nets arbitrary: nets' rule: second_stage_loop.induct)
    (auto split: sum.splits)

lemma train_bank_size:
  assumes "train ext s = Inr s'"
  shows "length (m_secondStageNetworks s') = length (m_secondStageNetworks s)"
  using assms
  by (auto simp: train_def trainFirstStage_def trainSecondStage_def
      dest: second_stage_loop_length split: sum.splits option.splits)

lemma train_steady:
  assumes "steady s" and "train ext s = Inr s'"
  shows "steady s'"
proof -
  have "0 \<le> sint (m_maxOverflowSize s)" using assms(1) by (simp add: steady_def)
  moreover have "m_secondStageNetworks s' \<noteq> []"
    using train_bank_size [OF assms(2)] assms(1) by (auto simp: steady_def)
  ultimately show ?thesis
    using assms(1) train_Inr(2,4) [OF assms(2)] train_counter_ok [OF assms(2)]
    by (simp add: steady_def)
qed

lemma insert_steady:
  assumes "externals_total ext" and "steady s"
  shows "\<exists>s'. insert_rmi ext key val s = Inr s' \<and> steady s'"
proof -
  let ?s1 = "s\<lparr>m_overflowArray := m_overflowArray s @ [(key, val)],
                m_currentOverflowSize := m_currentOverflowSize s + 1\<rparr>"
  have ne: "sint (m_currentOverflowSize s) \<noteq> 2 ^ 31 - 1"
    using assms(2) by (simp add: steady_def counter_ok_def)
  have nets: "m_secondStageNetworks ?s1 \<noteq> []" using assms(2) by (simp add: steady_def)
  show ?thesis
  proof (cases "sint (m_maxOverflowSize ?s1) < sint (m_currentOverflowSize ?s1)")
    case True
    from train_total [OF assms(1) nets] obtain s' where t: "train ext ?s1 = Inr s'" by blast
    with True ne have i: "insert_rmi ext key val s = Inr s'"
      by (simp add: insert_rmi_def)
    have c: "counter_ok s'" by (rule train_counter_ok [OF t])
    have "0 \<le> sint (m_maxOverflowSize s)" using assms(2) by (simp add: steady_def)
    moreover have "m_secondStageNetworks s' \<noteq> []"
      using train_bank_size [OF t] nets by auto
    ultimately have "steady s'"
      using assms(2) train_Inr(2,4) [OF t] c by (simp add: steady_def)
    with i show ?thesis by blast
  next
    case False
    with ne have i: "insert_rmi ext key val s = Inr ?s1"
      by (simp add: insert_rmi_def)
    have c: "counter_ok ?s1"
      using assms(2) i by (auto simp: steady_def intro: insert_counter_ok)
    have "int (length (m_overflowArray ?s1)) \<le> sint (m_maxOverflowSize ?s1)"
      using False c by (simp add: counter_ok_def)
    with c assms(2) have "steady ?s1" by (simp add: steady_def)
    with i show ?thesis by blast
  qed
qed

text \<open>
  From a steady state, with externals that are total, every sequence of calls
  completes, in a steady state.
\<close>

lemma calls_total:
  assumes "externals_total ext"
  shows "steady s \<Longrightarrow> \<exists>s'. calls ext cs s = Inr s' \<and> steady s'"
proof (induction cs arbitrary: s)
  case Nil
  then show ?case by simp
next
  case (Cons c cs)
  have "\<exists>s1. call_rmi ext c s = Inr s1 \<and> steady s1"
  proof (cases c)
    case (Insert key val)
    with insert_steady [OF assms Cons.prems, of key val] show ?thesis by simp
  next
    case (Find key)
    with Cons.prems show ?thesis by simp
  next
    case Train
    from Cons.prems have "m_secondStageNetworks s \<noteq> []" by (simp add: steady_def)
    from train_total [OF assms this] obtain s1 where t: "train ext s = Inr s1" by blast
    with train_steady [OF Cons.prems t] Train show ?thesis by simp
  qed
  then obtain s1 where c: "call_rmi ext c s = Inr s1" and s1: "steady s1" by blast
  from Cons.IH [OF s1] c show ?case by simp
qed

text \<open>Both conditions can be met.\<close>

lemma externals_total_instance:
  "externals_total
     (plain_externals \<lparr> new_second_stage_net := (\<lambda>b. Some ()),
                        first_stage_position := (\<lambda>net n key. Some 0) \<rparr>)"
  by (simp add: externals_total_def plain_externals_def)

lemma steady_instance: "steady example_state"
  by (simp add: steady_def counter_ok_def example_state_def)

end
